theory Spec2Isabelle
  imports Main "HOL-Library.Multiset"
begin

section \<open>Data model\<close>

text \<open>
  The broker of \<^verbatim>\<open>v1/brokers/servicebus/servicebus.go\<close> connects the task queue to a
  message bus. Byte slices are character lists, a \<^verbatim>\<open>time.Time\<close> is an instant on the
  integer time line (\<^verbatim>\<open>After\<close> is \<open><\<close> on instants), and a Go \<^verbatim>\<open>error\<close> is a value
  that carries its message. The one error type the source inspects by a type assertion is
  \<^verbatim>\<open>servicebus.ErrNotFound\<close>; every other error, \<^verbatim>\<open>fmt.Errorf\<close>'s included, is \<open>Error\<close>.
\<close>

type_synonym bytes = string

type_synonym instant = int

datatype error = ErrNotFound string | Error string

fun error_text :: "error \<Rightarrow> string" where
  "error_text (ErrNotFound s) = s"
| "error_text (Error s) = s"

text \<open>
  \<^verbatim>\<open>tasks.Signature\<close>: the fields the broker reads, and the rest of the descriptor
  (routing key, arguments, headers, ...) as the opaque field \<open>rest\<close>.
\<close>

record 'p signature =
  UUID :: string
  Name :: string
  ETA :: "instant option"
  IgnoreWhenTaskNotRegistered :: bool
  rest :: 'p

text \<open>
  \<^verbatim>\<open>servicebus.Message\<close>: the payload, the message identity and the scheduled enqueue
  time of its system properties.
\<close>

record message =
  Data :: bytes
  ID :: string
  ScheduledEnqueueTime :: "instant option"

text \<open>
  Modelled from the spec: the transport's message constructor and its scheduled-delivery
  mark, which belong to the message bus SDK. A new message holds the bytes and nothing
  else; \<open>ScheduleAt\<close> marks it for delivery at a timestamp.
\<close>

definition NewMessage :: "bytes \<Rightarrow> message" where
  "NewMessage data = \<lparr>Data = data, ID = [], ScheduledEnqueueTime = None\<rparr>"

definition ScheduleAt :: "message \<Rightarrow> instant \<Rightarrow> message" where
  "ScheduleAt msg t = msg\<lparr>ScheduledEnqueueTime := Some t\<rparr>"

subsection \<open>Contexts\<close>

text \<open>
  Go's contexts form a tree. \<^verbatim>\<open>context.Background()\<close> is its root and is never
  cancelled; \<^verbatim>\<open>context.WithCancel(parent)\<close> derives a child together with a cancel
  function, named here by a number. A context is done once the cancel function of the
  context itself or of one of its ancestors has been called.
\<close>

datatype "context" = Background | WithCancel nat "context"

fun ctx_done :: "nat set \<Rightarrow> context \<Rightarrow> bool" where
  "ctx_done cancelled Background = False"
| "ctx_done cancelled (WithCancel c parent) = (c \<in> cancelled \<or> ctx_done cancelled parent)"

text \<open>
  Line 61 of \<^verbatim>\<open>StartConsuming\<close>: the context that drives the receive loop, and the
  cancel function the stop watcher calls.
\<close>

definition receive_cancel :: nat where
  "receive_cancel = 0"

definition receive_ctx :: "context" where
  "receive_ctx = WithCancel receive_cancel Background"

subsection \<open>Resolution calls\<close>

text \<open>
  The three terminal resolutions of a message, each recorded with the context it was
  called with. The log of a session is the list of the calls issued so far, each paired
  with the message it resolves.
\<close>

datatype resolution =
    CompleteCall "context"
  | AbandonCall "context"
  | DeadLetterCall "context" error

type_synonym call = "message \<times> resolution"

fun call_context :: "resolution \<Rightarrow> context" where
  "call_context (CompleteCall ctx) = ctx"
| "call_context (AbandonCall ctx) = ctx"
| "call_context (DeadLetterCall ctx err) = ctx"

text \<open>
  The collaborators of the consumer, as parameters: the JSON decoder (with
  \<^verbatim>\<open>UseNumber\<close>) into a fresh signature, the registration lookup of the base broker, the
  task processor, and the transport's answer to a resolution call.
\<close>

record 'p consumer =
  Decode :: "bytes \<Rightarrow> error + 'p signature"
  IsTaskRegistered :: "string \<Rightarrow> bool"
  Process :: "'p signature \<Rightarrow> error option"
  transport_reply :: "call \<Rightarrow> error option"

definition Complete :: "'p consumer \<Rightarrow> context \<Rightarrow> message \<Rightarrow> call list \<Rightarrow> call list \<times> error option" where
  "Complete b ctx msg calls =
     (calls @ [(msg, CompleteCall ctx)], transport_reply b (msg, CompleteCall ctx))"

definition Abandon :: "'p consumer \<Rightarrow> context \<Rightarrow> message \<Rightarrow> call list \<Rightarrow> call list \<times> error option" where
  "Abandon b ctx msg calls =
     (calls @ [(msg, AbandonCall ctx)], transport_reply b (msg, AbandonCall ctx))"

definition DeadLetter ::
  "'p consumer \<Rightarrow> context \<Rightarrow> message \<Rightarrow> error \<Rightarrow> call list \<Rightarrow> call list \<times> error option" where
  "DeadLetter b ctx msg err calls =
     (calls @ [(msg, DeadLetterCall ctx err)], transport_reply b (msg, DeadLetterCall ctx err))"

section \<open>The consumption pipeline\<close>

subsection \<open>consumeOne\<close>

text \<open>
  Lines 154 to 183. The function takes the log of resolution calls and returns it
  extended, with the error the resolution call returned. Log output is not modelled: it
  decides nothing.
\<close>

definition consumeOne ::
  "'p consumer \<Rightarrow> context \<Rightarrow> message \<Rightarrow> call list \<Rightarrow> call list \<times> error option" where
  "consumeOne b ctx msg calls =
     (if length (Data msg) = 0 then
        DeadLetter b ctx msg (Error ''empty message data'') calls
      else
        (case Decode b (Data msg) of
           Inl err \<Rightarrow> DeadLetter b ctx msg (Error ''unmarshal msg data error'') calls
         | Inr sig \<Rightarrow>
             if \<not> IsTaskRegistered b (Name sig) then
               (if IgnoreWhenTaskNotRegistered sig then
                  DeadLetter b ctx msg
                    (Error (''task '' @ Name sig @ '' is not registered'')) calls
                else Abandon b ctx msg calls)
             else
               (case Process b sig of
                  Some err \<Rightarrow> Abandon b ctx msg calls
                | None \<Rightarrow> Complete b ctx msg calls)))"

subsection \<open>A worker\<close>

text \<open>
  Lines 83 to 89: one worker goroutine, run on the messages it takes from the dispatch
  channel until the channel is closed and empty. The state is the log of resolution
  calls and the counter of the wait group \<^verbatim>\<open>processingWG\<close>.
\<close>

fun worker :: "'p consumer \<Rightarrow> message list \<Rightarrow> call list \<times> int \<Rightarrow> call list \<times> int" where
  "worker b [] st = st"
| "worker b (msg # msgs) (calls, wg) =
     (let wg1 = wg + 1;
          calls1 = fst (consumeOne b Background msg calls);
          wg2 = wg1 - 1
      in worker b msgs (calls1, wg2))"

section \<open>Construction and publishing\<close>

subsection \<open>The message bus SDK and the configuration\<close>

text \<open>
  The SDK's operations the broker calls, as parameters: opening a namespace from a
  connection string, the queue manager's existence check, the creation of a queue handle
  (with an optional prefetch count) and the send primitive. \<open>'ns\<close> is the type of
  namespace handles and \<open>'q\<close> the type of queue handles.
\<close>

record ('ns, 'q) sdk =
  NewNamespace :: "string \<Rightarrow> error + 'ns"
  QueueManager_Get :: "'ns \<Rightarrow> string \<Rightarrow> error option"
  NewQueue :: "'ns \<Rightarrow> string \<Rightarrow> nat option \<Rightarrow> error + 'q"
  Send :: "'q \<Rightarrow> message \<Rightarrow> error option"

text \<open>
  \<^verbatim>\<open>config.Config\<close>: the connection string \<^verbatim>\<open>cnf.Broker\<close>, the default queue, and the
  client of \<^verbatim>\<open>cnf.ServiceBus\<close> when both the section and its client are set.
\<close>

record 'ns config =
  Broker :: string
  DefaultQueue :: string
  ServiceBus_Client :: "'ns option"

record ('ns, 'q) broker =
  cnf :: "'ns config"
  service :: 'ns
  publishQueue :: 'q

subsection \<open>New\<close>

text \<open>Lines 30 to 55.\<close>

definition New :: "('ns, 'q) sdk \<Rightarrow> 'ns config \<Rightarrow> error + ('ns, 'q) broker" where
  "New sdk c =
     (case (case ServiceBus_Client c of
              Some client \<Rightarrow> Inr client
            | None \<Rightarrow> NewNamespace sdk (Broker c)) of
        Inl err \<Rightarrow> Inl err
      | Inr ns \<Rightarrow>
          (case QueueManager_Get sdk ns (DefaultQueue c) of
             Some err \<Rightarrow>
               (case err of
                  ErrNotFound m \<Rightarrow> Inl (Error (''queue '' @ DefaultQueue c @ '' does not exist''))
                | Error m \<Rightarrow> Inl err)
           | None \<Rightarrow>
               (case NewQueue sdk ns (DefaultQueue c) None of
                  Inl err \<Rightarrow> Inl err
                | Inr queue \<Rightarrow> Inr \<lparr>cnf = c, service = ns, publishQueue = queue\<rparr>)))"

text \<open>
  Lines 63 to 71 of \<^verbatim>\<open>StartConsuming\<close>: the handle the receive loop uses. With a
  concurrency above one it is a new handle with that prefetch count, held in a local
  variable; the broker's \<^verbatim>\<open>publishQueue\<close> is not assigned.
\<close>

definition receive_queue :: "('ns, 'q) sdk \<Rightarrow> ('ns, 'q) broker \<Rightarrow> int \<Rightarrow> error + 'q" where
  "receive_queue sdk b concurrency =
     (if concurrency > 1 then
        NewQueue sdk (service b) (DefaultQueue (cnf b)) (Some (nat (concurrency mod 2 ^ 32)))
      else Inr (publishQueue b))"

subsection \<open>Publish\<close>

text \<open>
  The collaborators of the publisher, as parameters: the routing adjustment of the base
  broker, which works on the descriptor in place, and \<^verbatim>\<open>json.Marshal\<close>.
\<close>

record 'p publisher =
  AdjustRoutingKey :: "'p signature \<Rightarrow> 'p signature"
  Marshal :: "'p signature \<Rightarrow> error + bytes"

text \<open>
  Lines 126 to 152. \<open>now\<close> is what \<^verbatim>\<open>time.Now().UTC()\<close> returns, \<open>sends\<close> the log of
  the calls of the send primitive, each with the handle it was made on. The caller
  passes a pointer, so the descriptor the function reads after line 128 is the adjusted
  one, \<open>sig'\<close>. The result is the descriptor as the call leaves it, the log, and the
  error returned.
\<close>

definition Publish ::
  "('ns, 'q) sdk \<Rightarrow> 'p publisher \<Rightarrow> ('ns, 'q) broker \<Rightarrow> instant \<Rightarrow> 'p signature \<Rightarrow>
     ('q \<times> message) list \<Rightarrow> 'p signature \<times> ('q \<times> message) list \<times> error option" where
  "Publish sdk p b now sig sends =
     (let sig' = AdjustRoutingKey p sig in
      case Marshal p sig' of
        Inl err \<Rightarrow> (sig', sends, Some (Error (''JSON marshal error: '' @ error_text err)))
      | Inr sigMarshaled \<Rightarrow>
          (let msg0 = NewMessage sigMarshaled;
               msg1 = msg0\<lparr>ID := UUID sig'\<rparr>;
               msg = (case ETA sig' of
                        None \<Rightarrow> msg1
                      | Some eta \<Rightarrow> if now < eta then ScheduleAt msg1 eta else msg1)
           in (sig', sends @ [(publishQueue b, msg)], Send sdk (publishQueue b) msg)))"

section \<open>The receive loop\<close>

text \<open>
  Lines 97 to 105. The transport's blocking receive primitive is an oracle: \<open>Receive n\<close>
  is what its call number \<open>n\<close> (counted from zero) returns. The loop records what it
  does: each call of the primitive and each error it logs. The loop has no exit but the
  \<^verbatim>\<open>break\<close>, so it may run forever; not returning is the value \<open>None\<close>.
\<close>

datatype loop_event = Receive_call | Log_error error

partial_function (option) receive_loop ::
  "(nat \<Rightarrow> error option) \<Rightarrow> nat \<Rightarrow> loop_event list \<Rightarrow> loop_event list option" where
  "receive_loop Receive n trace =
     (case Receive n of
        None \<Rightarrow> Some (trace @ [Receive_call])
      | Some err \<Rightarrow> receive_loop Receive (Suc n) (trace @ [Receive_call, Log_error err]))"

text \<open>What the loop does on the failed calls \<open>n, ..., k - 1\<close>: call, log, call, log, ...\<close>

definition retries :: "(nat \<Rightarrow> error option) \<Rightarrow> nat \<Rightarrow> nat \<Rightarrow> loop_event list" where
  "retries Receive n k =
     concat (map (\<lambda>i. case Receive i of
                         None \<Rightarrow> []
                       | Some err \<Rightarrow> [Receive_call, Log_error err]) [n..<k])"

section \<open>A consumption session and its shutdown\<close>

text \<open>
  \<^verbatim>\<open>StartConsuming\<close> (lines 58 to 112) and \<^verbatim>\<open>StopConsuming\<close> (lines 115 to 123) run
  concurrently with the workers and the stop watcher. The session is a state machine
  over the shared objects, with one program counter per thread; a step is one statement
  of one thread, and a thread whose statement blocks has no step.
\<close>

datatype main_pc = Receiving | CloseStopReceiving | CloseMsgChan | StartReturned

datatype watcher_pc = AwaitStopChan | CallCancel | WatcherReturned

datatype worker_pc = RangeMsgChan | AddOne message | ConsumeOne message | DoneOne | WorkerReturned

datatype stop_pc = StopNotCalled | AwaitStopReceiving | WaitProcessingWG | StopReturned

record session =
  queue :: "message list"
  stopChan_closed :: bool
  cancelled :: "nat set"
  stopReceiving_closed :: bool
  msgChan :: "message list"
  msgChan_closed :: bool
  processingWG :: int
  call_log :: "call list"
  logged :: "error list"
  main_thread :: main_pc
  watcher :: watcher_pc
  workers :: "worker_pc list"
  stopper :: stop_pc

text \<open>
  The session as the receive loop is entered: \<open>concurrency\<close> workers wait on the empty
  dispatch channel, the watcher waits on the stop channel, \<^verbatim>\<open>StopConsuming\<close> has not
  been called, and \<open>q\<close> holds the messages waiting in the transport's queue.
\<close>

definition init :: "nat \<Rightarrow> message list \<Rightarrow> session" where
  "init concurrency q =
     \<lparr>queue = q, stopChan_closed = False, cancelled = {}, stopReceiving_closed = False,
      msgChan = [], msgChan_closed = False, processingWG = 0, call_log = [], logged = [],
      main_thread = Receiving, watcher = AwaitStopChan,
      workers = replicate concurrency RangeMsgChan, stopper = StopNotCalled\<rparr>"

text \<open>
  The steps. \<open>Deliver\<close>: inside the receive primitive the transport hands the next
  message to the handler of lines 76 to 79, which sends it on the dispatch channel (of
  capacity \<open>concurrency\<close>) and blocks while the channel is full. \<open>ReceiveReturns\<close>: the
  primitive returns to line 98, with nil or with an error; the transport decides when.
  \<open>MainStep\<close>: lines 107, 109 and 111. \<open>WatcherStep\<close>: lines 93 and 94. \<open>WorkerStep i\<close>:
  worker \<open>i\<close> at lines 84 to 87. \<open>StopStep\<close>: lines 116, 118 and 121. The bookkeeping
  of the base broker at line 59 and the retry flag returned at line 111 are left out.
\<close>

datatype event =
    Deliver
  | ReceiveReturns "error option"
  | MainStep
  | WatcherStep
  | WorkerStep nat
  | StopStep

text \<open>
  Modelled from the spec: the base broker's \<^verbatim>\<open>StopConsuming\<close>, called at line 116,
  signals the global stop channel, the one \<^verbatim>\<open>GetStopChan\<close> returns to the watcher.
\<close>

definition Broker_StopConsuming :: "session \<Rightarrow> session" where
  "Broker_StopConsuming s = s\<lparr>stopChan_closed := True\<rparr>"

fun worker_step :: "'p consumer \<Rightarrow> nat \<Rightarrow> worker_pc \<Rightarrow> session \<Rightarrow> session option" where
  "worker_step b i RangeMsgChan s =
     (case msgChan s of
        msg # buffered \<Rightarrow> Some (s\<lparr>msgChan := buffered, workers := (workers s)[i := AddOne msg]\<rparr>)
      | [] \<Rightarrow>
          if msgChan_closed s then Some (s\<lparr>workers := (workers s)[i := WorkerReturned]\<rparr>)
          else None)"
| "worker_step b i (AddOne msg) s =
     Some (s\<lparr>processingWG := processingWG s + 1, workers := (workers s)[i := ConsumeOne msg]\<rparr>)"
| "worker_step b i (ConsumeOne msg) s =
     Some (s\<lparr>call_log := fst (consumeOne b Background msg (call_log s)),
             workers := (workers s)[i := DoneOne]\<rparr>)"
| "worker_step b i DoneOne s =
     Some (s\<lparr>processingWG := processingWG s - 1, workers := (workers s)[i := RangeMsgChan]\<rparr>)"
| "worker_step b i WorkerReturned s = None"

fun step :: "'p consumer \<Rightarrow> nat \<Rightarrow> event \<Rightarrow> session \<Rightarrow> session option" where
  "step b concurrency Deliver s =
     (case queue s of
        [] \<Rightarrow> None
      | msg # waiting \<Rightarrow>
          if main_thread s = Receiving \<and> length (msgChan s) < concurrency
          then Some (s\<lparr>queue := waiting, msgChan := msgChan s @ [msg]\<rparr>)
          else None)"
| "step b concurrency (ReceiveReturns None) s =
     (if main_thread s = Receiving then Some (s\<lparr>main_thread := CloseStopReceiving\<rparr>)
      else None)"
| "step b concurrency (ReceiveReturns (Some err)) s =
     (if main_thread s = Receiving then Some (s\<lparr>logged := logged s @ [err]\<rparr>) else None)"
| "step b concurrency MainStep s =
     (case main_thread s of
        Receiving \<Rightarrow> None
      | CloseStopReceiving \<Rightarrow>
          Some (s\<lparr>stopReceiving_closed := True, main_thread := CloseMsgChan\<rparr>)
      | CloseMsgChan \<Rightarrow> Some (s\<lparr>msgChan_closed := True, main_thread := StartReturned\<rparr>)
      | StartReturned \<Rightarrow> None)"
| "step b concurrency WatcherStep s =
     (case watcher s of
        AwaitStopChan \<Rightarrow> if stopChan_closed s then Some (s\<lparr>watcher := CallCancel\<rparr>) else None
      | CallCancel \<Rightarrow>
          Some (s\<lparr>cancelled := insert receive_cancel (cancelled s), watcher := WatcherReturned\<rparr>)
      | WatcherReturned \<Rightarrow> None)"
| "step b concurrency (WorkerStep i) s =
     (if i < length (workers s) then worker_step b i (workers s ! i) s else None)"
| "step b concurrency StopStep s =
     (case stopper s of
        StopNotCalled \<Rightarrow> Some ((Broker_StopConsuming s)\<lparr>stopper := AwaitStopReceiving\<rparr>)
      | AwaitStopReceiving \<Rightarrow>
          if stopReceiving_closed s then Some (s\<lparr>stopper := WaitProcessingWG\<rparr>) else None
      | WaitProcessingWG \<Rightarrow>
          if processingWG s = 0 then Some (s\<lparr>stopper := StopReturned\<rparr>) else None
      | StopReturned \<Rightarrow> None)"

text \<open>A schedule is the list of the steps taken, in order.\<close>

fun run :: "'p consumer \<Rightarrow> nat \<Rightarrow> event list \<Rightarrow> session \<Rightarrow> session option" where
  "run b concurrency [] s = Some s"
| "run b concurrency (e # es) s =
     (case step b concurrency e s of
        None \<Rightarrow> None
      | Some s' \<Rightarrow> run b concurrency es s')"

subsection \<open>Invariants of a session\<close>

text \<open>
  The message a worker holds between taking it from the dispatch channel and resolving
  it, and the messages of a session that no resolution call has been issued for: those
  still in the transport's queue, those in the dispatch channel, and those held by a
  worker.
\<close>

fun holding :: "worker_pc \<Rightarrow> message multiset" where
  "holding (AddOne msg) = {#msg#}"
| "holding (ConsumeOne msg) = {#msg#}"
| "holding pc = {#}"

definition unresolved :: "session \<Rightarrow> message multiset" where
  "unresolved s =
     mset (queue s) + mset (msgChan s) + sum_list (map holding (workers s))"

text \<open>Every message of the queue \<open>q\<close> is resolved once or is still unresolved.\<close>

definition conserved :: "message list \<Rightarrow> session \<Rightarrow> bool" where
  "conserved q s = (mset (map fst (call_log s)) + unresolved s = mset q)"

text \<open>Every resolution call of the log was made with the background context.\<close>

definition background_calls :: "session \<Rightarrow> bool" where
  "background_calls s =
     (map (call_context \<circ> snd) (call_log s) = replicate (length (call_log s)) Background)"

text \<open>
  The order of a shutdown: the stop channel is closed before the receive context is
  cancelled, \<^verbatim>\<open>stopReceiving\<close> is closed only after the receive loop has exited, and
  \<^verbatim>\<open>StopConsuming\<close> is past line 118 only once \<^verbatim>\<open>stopReceiving\<close> is closed.
\<close>

definition shutdown_order :: "session \<Rightarrow> bool" where
  "shutdown_order s =
     ((stopper s \<noteq> StopNotCalled \<longrightarrow> stopChan_closed s) \<and>
      (ctx_done (cancelled s) receive_ctx \<longrightarrow> stopChan_closed s) \<and>
      (watcher s \<noteq> AwaitStopChan \<longrightarrow> stopChan_closed s) \<and>
      (stopReceiving_closed s \<longrightarrow> main_thread s = CloseMsgChan \<or> main_thread s = StartReturned) \<and>
      (stopper s = WaitProcessingWG \<or> stopper s = StopReturned \<longrightarrow> stopReceiving_closed s))"

section \<open>Examples\<close>

text \<open>
  A consumer for the examples. Its decoder reads the payload as the task's name and
  rejects the payload \<open>''{''\<close>; the tasks \<open>add\<close> and \<open>fail\<close> are registered, and \<open>fail\<close>
  fails in the processor.
\<close>

definition example_consumer :: "unit consumer" where
  "example_consumer =
     \<lparr>Decode = (\<lambda>data.
         if data = ''{'' then Inl (Error ''unexpected end of JSON input'')
         else Inr \<lparr>UUID = ''7a1c'', Name = data, ETA = None,
                   IgnoreWhenTaskNotRegistered = (data = ''ghost''), rest = ()\<rparr>),
      IsTaskRegistered = (\<lambda>name. name \<in> {''add'', ''fail''}),
      Process = (\<lambda>sig. if Name sig = ''fail'' then Some (Error ''division by zero'') else None),
      transport_reply = (\<lambda>c. None)\<rparr>"

definition example_message :: "bytes \<Rightarrow> message" where
  "example_message data = \<lparr>Data = data, ID = ''7a1c'', ScheduledEnqueueTime = None\<rparr>"

text \<open>
  A publisher for the examples, on descriptors whose \<open>rest\<close> is the routing key. The
  routing adjustment fills an empty routing key with the default queue's name; the
  encoder writes the name and the routing key, and fails on a descriptor with no name.
\<close>

definition example_publisher :: "string publisher" where
  "example_publisher =
     \<lparr>AdjustRoutingKey = (\<lambda>sig. if rest sig = [] then sig\<lparr>rest := ''machinery_tasks''\<rparr> else sig),
      Marshal = (\<lambda>sig.
         if Name sig = [] then Inl (Error ''unsupported value'')
         else Inr (Name sig @ ''@'' @ rest sig))\<rparr>"

definition example_signature :: "string \<Rightarrow> instant option \<Rightarrow> string \<Rightarrow> string signature" where
  "example_signature name eta key =
     \<lparr>UUID = ''7a1c'', Name = name, ETA = eta, IgnoreWhenTaskNotRegistered = False, rest = key\<rparr>"

text \<open>
  An SDK for the examples: a queue handle is the queue's name with the prefetch count,
  the queue \<open>missing\<close> does not exist, and every send succeeds.
\<close>

definition example_sdk :: "(unit, string \<times> nat option) sdk" where
  "example_sdk =
     \<lparr>NewNamespace = (\<lambda>conn. Inr ()),
      QueueManager_Get = (\<lambda>ns name.
         if name = ''missing'' then Some (ErrNotFound ''entity not found'') else None),
      NewQueue = (\<lambda>ns name prefetch. Inr (name, prefetch)),
      Send = (\<lambda>q msg. None)\<rparr>"

definition example_config :: "unit config" where
  "example_config =
     \<lparr>Broker = ''Endpoint=sb://example'', DefaultQueue = ''machinery_tasks'',
      ServiceBus_Client = None\<rparr>"

definition example_broker :: "(unit, string \<times> nat option) broker" where
  "example_broker =
     \<lparr>cnf = example_config, service = (), publishQueue = (''machinery_tasks'', None)\<rparr>"

text \<open>
  A transport for the examples whose receive primitive fails twice and then stops
  cleanly, and one that fails forever.
\<close>

definition example_receive :: "nat \<Rightarrow> error option" where
  "example_receive n = (if n < 2 then Some (Error ''connection reset'') else None)"

definition failing_receive :: "nat \<Rightarrow> error option" where
  "failing_receive n = Some (Error ''connection reset'')"

text \<open>
  A shutdown with one worker and two messages in the transport's queue. The worker
  takes the first message; the second is delivered and waits in the dispatch channel.
  \<^verbatim>\<open>StopConsuming\<close> is called, the watcher cancels the receive context, the receive
  primitive returns nil, and \<^verbatim>\<open>StartConsuming\<close> closes \<^verbatim>\<open>stopReceiving\<close> and the
  dispatch channel. The worker resolves the first message and calls \<^verbatim>\<open>Done\<close>; the
  counter is zero, so \<^verbatim>\<open>Wait\<close> returns.
\<close>

definition shutdown_schedule :: "event list" where
  "shutdown_schedule =
     [Deliver, WorkerStep 0, WorkerStep 0, Deliver,
      StopStep, WatcherStep, WatcherStep, ReceiveReturns None, MainStep, MainStep, StopStep,
      WorkerStep 0, WorkerStep 0, StopStep]"

text \<open>The worker goes on: it takes the second message, calls \<^verbatim>\<open>Add\<close> and resolves it.\<close>

definition drain_schedule :: "event list" where
  "drain_schedule = [WorkerStep 0, WorkerStep 0, WorkerStep 0]"

text \<open>
  A session in which the receive context is cancelled while the worker holds a message:
  the worker resolves it after the cancellation.
\<close>

definition cancel_schedule :: "event list" where
  "cancel_schedule =
     [Deliver, WorkerStep 0, WorkerStep 0, StopStep, WatcherStep, WatcherStep, WorkerStep 0]"

section \<open>Facts about consumeOne and the workers\<close>

lemma consumeOne_one_call:
  "\<exists>r. fst (consumeOne b ctx msg calls) = calls @ [(msg, r)] \<and> call_context r = ctx"
  by (simp add: consumeOne_def DeadLetter_def Abandon_def Complete_def
      split: sum.split option.split)

lemma worker_calls:
  "\<exists>rs. length rs = length msgs \<and>
        fst (worker b msgs (calls, wg)) = calls @ zip msgs rs \<and>
        map call_context rs = replicate (length msgs) Background \<and>
        snd (worker b msgs (calls, wg)) = wg"
proof (induction msgs arbitrary: calls)
  case Nil
  then show ?case by simp
next
  case (Cons m ms)
  obtain r where r: "fst (consumeOne b Background m calls) = calls @ [(m, r)]"
      and ctx: "call_context r = Background"
    using consumeOne_one_call by blast
  from Cons.IH[of "calls @ [(m, r)]"] obtain rs where
    rs: "length rs = length ms"
      "fst (worker b ms (calls @ [(m, r)], wg)) = (calls @ [(m, r)]) @ zip ms rs"
      "map call_context rs = replicate (length ms) Background"
      "snd (worker b ms (calls @ [(m, r)], wg)) = wg"
    by blast
  show ?case
    by (rule exI[of _ "r # rs"]) (simp add: r ctx rs Let_def)
qed

text \<open>
  Claim C1, amended. For every received message \<^verbatim>\<open>consumeOne\<close> issues the resolution of
  the state machine: an empty payload is dead-lettered with the reason
  \<open>empty message data\<close>; a payload that does not decode is dead-lettered with the reason
  \<open>unmarshal msg data error\<close>; a decoded task whose name is not registered is
  dead-lettered (reason \<open>task NAME is not registered\<close>) when its
  \<^verbatim>\<open>IgnoreWhenTaskNotRegistered\<close> is set and abandoned otherwise; a registered task is
  processed, then completed when the processor returns nil and abandoned when it returns
  an error.
\<close>

theorem consumeOne_resolution:
  "(Data msg = [] \<longrightarrow>
      fst (consumeOne b ctx msg calls) =
        calls @ [(msg, DeadLetterCall ctx (Error ''empty message data''))]) \<and>
   (Data msg \<noteq> [] \<and> Decode b (Data msg) = Inl err \<longrightarrow>
      fst (consumeOne b ctx msg calls) =
        calls @ [(msg, DeadLetterCall ctx (Error ''unmarshal msg data error''))]) \<and>
   (Data msg \<noteq> [] \<and> Decode b (Data msg) = Inr sig \<and> \<not> IsTaskRegistered b (Name sig) \<and>
      IgnoreWhenTaskNotRegistered sig \<longrightarrow>
      fst (consumeOne b ctx msg calls) =
        calls @ [(msg, DeadLetterCall ctx (Error (''task '' @ Name sig @ '' is not registered'')))]) \<and>
   (Data msg \<noteq> [] \<and> Decode b (Data msg) = Inr sig \<and> \<not> IsTaskRegistered b (Name sig) \<and>
      \<not> IgnoreWhenTaskNotRegistered sig \<longrightarrow>
      fst (consumeOne b ctx msg calls) = calls @ [(msg, AbandonCall ctx)]) \<and>
   (Data msg \<noteq> [] \<and> Decode b (Data msg) = Inr sig \<and> IsTaskRegistered b (Name sig) \<and>
      Process b sig = None \<longrightarrow>
      fst (consumeOne b ctx msg calls) = calls @ [(msg, CompleteCall ctx)]) \<and>
   (Data msg \<noteq> [] \<and> Decode b (Data msg) = Inr sig \<and> IsTaskRegistered b (Name sig) \<and>
      Process b sig = Some perr \<longrightarrow>
      fst (consumeOne b ctx msg calls) = calls @ [(msg, AbandonCall ctx)])"
  by (simp add: consumeOne_def DeadLetter_def Abandon_def Complete_def)

text \<open>The six branches on the example consumer.\<close>

theorem consumeOne_resolution_witness:
  "fst (consumeOne example_consumer Background (example_message []) []) =
     [(example_message [], DeadLetterCall Background (Error ''empty message data''))] \<and>
   fst (consumeOne example_consumer Background (example_message ''{'') []) =
     [(example_message ''{'', DeadLetterCall Background (Error ''unmarshal msg data error''))] \<and>
   fst (consumeOne example_consumer Background (example_message ''ghost'') []) =
     [(example_message ''ghost'',
       DeadLetterCall Background (Error ''task ghost is not registered''))] \<and>
   fst (consumeOne example_consumer Background (example_message ''mul'') []) =
     [(example_message ''mul'', AbandonCall Background)] \<and>
   fst (consumeOne example_consumer Background (example_message ''add'') []) =
     [(example_message ''add'', CompleteCall Background)] \<and>
   fst (consumeOne example_consumer Background (example_message ''fail'') []) =
     [(example_message ''fail'', AbandonCall Background)]"
  using
    consumeOne_resolution[where msg = "example_message []" and b = example_consumer
      and ctx = Background and calls = "[]"]
    consumeOne_resolution[where msg = "example_message ''{''" and b = example_consumer
      and ctx = Background and calls = "[]" and err = "Error ''unexpected end of JSON input''"]
    consumeOne_resolution[where msg = "example_message ''ghost''" and b = example_consumer
      and ctx = Background and calls = "[]"
      and sig = "\<lparr>UUID = ''7a1c'', Name = ''ghost'', ETA = None,
        IgnoreWhenTaskNotRegistered = True, rest = ()\<rparr>"]
    consumeOne_resolution[where msg = "example_message ''mul''" and b = example_consumer
      and ctx = Background and calls = "[]"
      and sig = "\<lparr>UUID = ''7a1c'', Name = ''mul'', ETA = None,
        IgnoreWhenTaskNotRegistered = False, rest = ()\<rparr>"]
    consumeOne_resolution[where msg = "example_message ''add''" and b = example_consumer
      and ctx = Background and calls = "[]"
      and sig = "\<lparr>UUID = ''7a1c'', Name = ''add'', ETA = None,
        IgnoreWhenTaskNotRegistered = False, rest = ()\<rparr>"]
    consumeOne_resolution[where msg = "example_message ''fail''" and b = example_consumer
      and ctx = Background and calls = "[]"
      and sig = "\<lparr>UUID = ''7a1c'', Name = ''fail'', ETA = None,
        IgnoreWhenTaskNotRegistered = False, rest = ()\<rparr>"
      and perr = "Error ''division by zero''"]
  by (simp add: example_consumer_def example_message_def)

text \<open>
  As the claim words it, the reason of the second branch is \<open>unmarshal error\<close>. That is
  the text of the log line; the reason handed to \<^verbatim>\<open>DeadLetter\<close> is another one.
\<close>

theorem consumeOne_unmarshal_reason_counterexample:
  "Data (example_message ''{'') \<noteq> [] \<and>
   Decode example_consumer (Data (example_message ''{'')) =
     Inl (Error ''unexpected end of JSON input'') \<and>
   fst (consumeOne example_consumer Background (example_message ''{'') []) \<noteq>
     [(example_message ''{'', DeadLetterCall Background (Error ''unmarshal error''))]"
  by (simp add: consumeOne_def DeadLetter_def example_consumer_def example_message_def)

section \<open>Facts about a session\<close>

subsection \<open>Messages are conserved in a session\<close>

lemma holding_update:
  "i < length ws \<Longrightarrow>
   sum_list (map holding (ws[i := pc])) + holding (ws ! i) = sum_list (map holding ws) + holding pc"
proof (induction ws arbitrary: i)
  case Nil
  then show ?case by simp
next
  case (Cons w ws)
  then show ?case by (cases i) (simp_all add: ac_simps)
qed

lemma holding_update_same:
  "i < length ws \<Longrightarrow> holding (ws ! i) = holding pc \<Longrightarrow>
   sum_list (map holding (ws[i := pc])) = sum_list (map holding ws)"
  using holding_update[of i ws pc] by simp

lemma worker_step_conserved:
  assumes "worker_step b i (workers s ! i) s = Some s'" and "i < length (workers s)"
    and "conserved q s"
  shows "conserved q s'"
proof (cases "workers s ! i")
  case RangeMsgChan
  show ?thesis
  proof (cases "msgChan s")
    case Nil
    with assms RangeMsgChan show ?thesis
      by (auto simp: conserved_def unresolved_def holding_update_same split: if_splits)
  next
    case (Cons msg buffered)
    have "sum_list (map holding ((workers s)[i := AddOne msg])) =
        sum_list (map holding (workers s)) + {#msg#}"
      using holding_update[OF assms(2), of "AddOne msg"] RangeMsgChan by simp
    with assms RangeMsgChan Cons show ?thesis
      by (auto simp: conserved_def unresolved_def)
  qed
next
  case (AddOne msg)
  with assms show ?thesis
    by (auto simp: conserved_def unresolved_def holding_update_same)
next
  case (ConsumeOne msg)
  obtain r where r: "fst (consumeOne b Background msg (call_log s)) = call_log s @ [(msg, r)]"
    using consumeOne_one_call by blast
  have h: "sum_list (map holding (workers s)) =
      sum_list (map holding ((workers s)[i := DoneOne])) + {#msg#}"
    using holding_update[OF assms(2), of DoneOne] ConsumeOne by simp
  have "s' = s\<lparr>call_log := call_log s @ [(msg, r)], workers := (workers s)[i := DoneOne]\<rparr>"
    using assms(1) ConsumeOne r by simp
  then show ?thesis
    using assms(3) by (simp add: conserved_def unresolved_def h)
next
  case DoneOne
  with assms show ?thesis
    by (auto simp: conserved_def unresolved_def holding_update_same)
next
  case WorkerReturned
  with assms show ?thesis by simp
qed

lemma step_conserved:
  assumes "step b concurrency e s = Some s'" and "conserved q s"
  shows "conserved q s'"
proof (cases e)
  case (WorkerStep i)
  with assms show ?thesis by (auto split: if_splits intro: worker_step_conserved)
next
  case (ReceiveReturns r)
  with assms show ?thesis
    by (cases r) (auto simp: conserved_def unresolved_def split: if_splits)
qed (use assms in \<open>auto simp: conserved_def unresolved_def Broker_StopConsuming_def
       split: if_splits list.splits main_pc.splits watcher_pc.splits stop_pc.splits\<close>)

lemma run_conserved:
  "run b concurrency es s = Some s' \<Longrightarrow> conserved q s \<Longrightarrow> conserved q s'"
proof (induction es arbitrary: s)
  case Nil
  then show ?case by simp
next
  case (Cons e es)
  then show ?case by (auto split: option.splits dest: step_conserved)
qed

lemma session_conservation:
  assumes "run b concurrency es (init concurrency q) = Some s"
  shows "mset (map fst (call_log s)) + unresolved s = mset q"
proof -
  have "sum_list (map holding (replicate n RangeMsgChan)) = {#}" for n
    by (induction n) simp_all
  then have "conserved q (init concurrency q)"
    by (simp add: conserved_def unresolved_def init_def)
  from run_conserved[OF assms this] show ?thesis by (simp add: conserved_def)
qed

lemma drained_run:
  "run example_consumer 1 (shutdown_schedule @ drain_schedule)
     (init 1 [example_message ''add'', example_message ''fail'']) =
     Some \<lparr>queue = [], stopChan_closed = True, cancelled = {receive_cancel},
       stopReceiving_closed = True, msgChan = [], msgChan_closed = True, processingWG = 1,
       call_log = [(example_message ''add'', CompleteCall Background),
                   (example_message ''fail'', AbandonCall Background)],
       logged = [], main_thread = StartReturned, watcher = WatcherReturned,
       workers = [DoneOne], stopper = StopReturned\<rparr>"
  by (simp add: shutdown_schedule_def drain_schedule_def init_def example_consumer_def
      example_message_def consumeOne_def Complete_def Abandon_def receive_ctx_def
      Broker_StopConsuming_def)

text \<open>
  Claim C2. On every path \<^verbatim>\<open>consumeOne\<close> issues exactly one resolution call, on its
  message, and leaves the earlier calls as they were. A worker that processes the
  messages \<open>msgs\<close> issues exactly one call per message, in their order. In a session
  with any number of workers, under any schedule, the messages resolved so far (each
  counted as often as it has been resolved) and the messages not yet resolved are
  together the messages of the queue: no message is resolved twice, and a message that
  has left a worker has been resolved.
\<close>

theorem exactly_one_resolution:
  "(\<exists>r. fst (consumeOne b ctx msg calls) = calls @ [(msg, r)]) \<and>
   (\<exists>rs. length rs = length msgs \<and> fst (worker b msgs (calls, wg)) = calls @ zip msgs rs) \<and>
   (run b concurrency es (init concurrency q) = Some s \<longrightarrow>
      mset (map fst (call_log s)) + unresolved s = mset q)"
  using consumeOne_one_call[of b ctx msg calls] worker_calls[of msgs b calls wg]
    session_conservation[of b concurrency es q s]
  by blast

text \<open>The session of the example, run until both messages are resolved.\<close>

theorem exactly_one_resolution_witness:
  "map_option (\<lambda>s. (mset (map fst (call_log s)), unresolved s))
     (run example_consumer 1 (shutdown_schedule @ drain_schedule)
        (init 1 [example_message ''add'', example_message ''fail''])) =
   Some ({#example_message ''add'', example_message ''fail''#}, {#})"
  using exactly_one_resolution[THEN conjunct2, THEN conjunct2, THEN mp, OF drained_run]
  unfolding drained_run by (simp add: unresolved_def)

subsection \<open>The contexts of the resolution calls\<close>

lemma worker_step_contexts:
  assumes "worker_step b i pc s = Some s'" and "background_calls s"
  shows "background_calls s'"
proof (cases pc)
  case (ConsumeOne msg)
  obtain r where "fst (consumeOne b Background msg (call_log s)) = call_log s @ [(msg, r)]"
      "call_context r = Background"
    using consumeOne_one_call by blast
  with assms ConsumeOne show ?thesis
    by (auto simp: background_calls_def replicate_append_same)
qed (use assms in \<open>auto simp: background_calls_def split: list.splits if_splits\<close>)

lemma step_contexts:
  assumes "step b concurrency e s = Some s'" and "background_calls s"
  shows "background_calls s'"
proof (cases e)
  case (WorkerStep i)
  with assms show ?thesis by (auto split: if_splits intro: worker_step_contexts)
next
  case (ReceiveReturns r)
  with assms show ?thesis by (cases r) (auto simp: background_calls_def split: if_splits)
qed (use assms in \<open>auto simp: background_calls_def Broker_StopConsuming_def
       split: if_splits list.splits main_pc.splits watcher_pc.splits stop_pc.splits\<close>)

lemma run_contexts:
  "run b concurrency es s = Some s' \<Longrightarrow> background_calls s \<Longrightarrow> background_calls s'"
proof (induction es arbitrary: s)
  case Nil
  then show ?case by simp
next
  case (Cons e es)
  then show ?case by (auto split: option.splits dest: step_contexts)
qed

text \<open>
  Claim C8. In a session with any number of workers, under any schedule, every
  resolution call has been made with \<^verbatim>\<open>context.Background()\<close>, which is not derived
  from the context of the receive loop and is not done whatever cancel function has
  been called: the cancellation that stops the receive loop does not reach a resolution
  call.
\<close>

theorem resolution_contexts:
  assumes "run b concurrency es (init concurrency q) = Some s"
  shows "map (call_context \<circ> snd) (call_log s) = replicate (length (call_log s)) Background \<and>
     \<not> ctx_done (cancelled s) Background"
proof -
  have "background_calls (init concurrency q)"
    by (simp add: background_calls_def init_def)
  from run_contexts[OF assms this] show ?thesis
    by (simp add: background_calls_def)
qed

lemma cancel_run:
  "run example_consumer 1 cancel_schedule (init 1 [example_message ''add'']) =
     Some \<lparr>queue = [], stopChan_closed = True, cancelled = {receive_cancel},
       stopReceiving_closed = False, msgChan = [], msgChan_closed = False, processingWG = 1,
       call_log = [(example_message ''add'', CompleteCall Background)], logged = [],
       main_thread = Receiving, watcher = WatcherReturned, workers = [DoneOne],
       stopper = AwaitStopReceiving\<rparr>"
  by (simp add: cancel_schedule_def init_def example_consumer_def example_message_def
      consumeOne_def Complete_def receive_ctx_def Broker_StopConsuming_def)

text \<open>
  The worker resolves its message after the receive context has been cancelled, with a
  context that is not done.
\<close>

theorem resolution_contexts_witness:
  "map_option (\<lambda>s. (ctx_done (cancelled s) receive_ctx, map snd (call_log s),
        ctx_done (cancelled s) Background))
     (run example_consumer 1 cancel_schedule (init 1 [example_message ''add''])) =
   Some (True, [CompleteCall Background], False)"
  using resolution_contexts[OF cancel_run]
  unfolding cancel_run by (simp add: receive_ctx_def)

subsection \<open>What StopConsuming waits for\<close>

text \<open>
  \<^verbatim>\<open>StopConsuming\<close> returns only after the stop channel is closed and \<^verbatim>\<open>stopReceiving\<close>
  has been closed by \<^verbatim>\<open>StartConsuming\<close>, whose receive loop has then exited; and
  \<^verbatim>\<open>Wait\<close> returns at a moment at which the counter is zero.
\<close>

lemma worker_step_frame:
  assumes "worker_step b i pc s = Some s'"
  shows "stopper s' = stopper s \<and> stopChan_closed s' = stopChan_closed s \<and>
     cancelled s' = cancelled s \<and> watcher s' = watcher s \<and>
     main_thread s' = main_thread s \<and> stopReceiving_closed s' = stopReceiving_closed s"
proof (cases pc)
  case RangeMsgChan
  with assms show ?thesis by (cases "msgChan s") (auto split: if_splits)
qed (use assms in auto)

lemma worker_step_order:
  assumes "worker_step b i pc s = Some s'" and "shutdown_order s"
  shows "shutdown_order s'"
  using assms(2) worker_step_frame[OF assms(1)] by (simp add: shutdown_order_def)

lemma step_order:
  assumes "step b concurrency e s = Some s'" and "shutdown_order s"
  shows "shutdown_order s'"
proof (cases e)
  case (WorkerStep i)
  with assms show ?thesis by (auto split: if_splits intro: worker_step_order)
next
  case (ReceiveReturns r)
  show ?thesis
  proof (cases r)
    case None
    with assms ReceiveReturns have "s' = s\<lparr>main_thread := CloseStopReceiving\<rparr>"
      "main_thread s = Receiving"
      by (auto split: if_splits)
    with assms(2) show ?thesis by (auto simp: shutdown_order_def)
  next
    case (Some err)
    with assms ReceiveReturns have "s' = s\<lparr>logged := logged s @ [err]\<rparr>"
      by (auto split: if_splits)
    with assms(2) show ?thesis by (auto simp: shutdown_order_def)
  qed
next
  case Deliver
  with assms obtain msg waiting where
    "s' = s\<lparr>queue := waiting, msgChan := msgChan s @ [msg]\<rparr>"
    by (auto split: if_splits list.splits)
  with assms(2) show ?thesis by (auto simp: shutdown_order_def)
next
  case MainStep
  show ?thesis
  proof (cases "main_thread s")
    case CloseStopReceiving
    with assms MainStep have
      "s' = s\<lparr>stopReceiving_closed := True, main_thread := CloseMsgChan\<rparr>" by simp
    with assms(2) CloseStopReceiving show ?thesis by (auto simp: shutdown_order_def)
  next
    case CloseMsgChan
    with assms MainStep have
      "s' = s\<lparr>msgChan_closed := True, main_thread := StartReturned\<rparr>" by simp
    with assms(2) CloseMsgChan show ?thesis by (auto simp: shutdown_order_def)
  qed (use assms MainStep in simp_all)
next
  case WatcherStep
  show ?thesis
  proof (cases "watcher s")
    case AwaitStopChan
    with assms WatcherStep have "s' = s\<lparr>watcher := CallCancel\<rparr>" "stopChan_closed s"
      by (auto split: if_splits)
    with assms(2) AwaitStopChan show ?thesis by (auto simp: shutdown_order_def)
  next
    case CallCancel
    with assms WatcherStep have
      "s' = s\<lparr>cancelled := insert receive_cancel (cancelled s), watcher := WatcherReturned\<rparr>"
      by simp
    with assms(2) CallCancel show ?thesis by (auto simp: shutdown_order_def receive_ctx_def)
  qed (use assms WatcherStep in simp)
next
  case StopStep
  show ?thesis
  proof (cases "stopper s")
    case StopNotCalled
    with assms StopStep have
      "s' = s\<lparr>stopChan_closed := True, stopper := AwaitStopReceiving\<rparr>"
      by (simp add: Broker_StopConsuming_def)
    with assms(2) show ?thesis by (auto simp: shutdown_order_def)
  next
    case AwaitStopReceiving
    with assms StopStep have "s' = s\<lparr>stopper := WaitProcessingWG\<rparr>" "stopReceiving_closed s"
      by (auto split: if_splits)
    with assms(2) AwaitStopReceiving show ?thesis by (auto simp: shutdown_order_def)
  next
    case WaitProcessingWG
    with assms StopStep have "s' = s\<lparr>stopper := StopReturned\<rparr>"
      by (auto split: if_splits)
    with assms(2) WaitProcessingWG show ?thesis by (auto simp: shutdown_order_def)
  qed (use assms StopStep in simp)
qed

lemma run_order:
  "run b concurrency es s = Some s' \<Longrightarrow> shutdown_order s \<Longrightarrow> shutdown_order s'"
proof (induction es arbitrary: s)
  case Nil
  then show ?case by simp
next
  case (Cons e es)
  then show ?case by (auto split: option.splits dest: step_order)
qed

lemma StopConsuming_waits:
  assumes "run b concurrency es (init concurrency q) = Some s" and "stopper s = StopReturned"
  shows "stopChan_closed s \<and> stopReceiving_closed s \<and> main_thread s \<noteq> Receiving"
proof -
  have "shutdown_order (init concurrency q)"
    by (simp add: shutdown_order_def init_def receive_ctx_def)
  from run_order[OF assms(1) this] assms(2) show ?thesis
    by (auto simp: shutdown_order_def)
qed

lemma Wait_returns_at_zero:
  assumes "step b concurrency StopStep s = Some s'" and "stopper s = WaitProcessingWG"
  shows "processingWG s = 0 \<and> s' = s\<lparr>stopper := StopReturned\<rparr>"
  using assms by (auto split: if_splits)

text \<open>
  Claim C3 fails on this code. At the end of the shutdown of the example
  \<^verbatim>\<open>StopConsuming\<close> has returned, the counter is zero, and the second message is still
  in the dispatch channel. The worker then takes it: after the return the counter is one
  and a second resolution call is issued.
\<close>

theorem StopConsuming_returns_before_drain:
  "map_option (\<lambda>s. (stopper s, processingWG s, msgChan s, map fst (call_log s)))
     (run example_consumer 1 shutdown_schedule
        (init 1 [example_message ''add'', example_message ''fail''])) =
     Some (StopReturned, 0, [example_message ''fail''], [example_message ''add'']) \<and>
   map_option (\<lambda>s. (stopper s, processingWG s, msgChan s, map fst (call_log s)))
     (run example_consumer 1 (shutdown_schedule @ drain_schedule)
        (init 1 [example_message ''add'', example_message ''fail''])) =
     Some (StopReturned, 1, [], [example_message ''add'', example_message ''fail''])"
  by (simp add: shutdown_schedule_def drain_schedule_def init_def example_consumer_def
      example_message_def consumeOne_def Complete_def Abandon_def receive_ctx_def
      Broker_StopConsuming_def)

section \<open>Facts about the receive loop\<close>

lemma retries_step:
  "n < k \<Longrightarrow> Receive n = Some err \<Longrightarrow>
   retries Receive n k = [Receive_call, Log_error err] @ retries Receive (Suc n) k"
  by (simp add: retries_def upt_conv_Cons)

lemma receive_loop_returns:
  "n \<le> k \<Longrightarrow> Receive k = None \<Longrightarrow> (\<And>i. n \<le> i \<Longrightarrow> i < k \<Longrightarrow> Receive i \<noteq> None) \<Longrightarrow>
   receive_loop Receive n trace = Some (trace @ retries Receive n k @ [Receive_call])"
proof (induction "k - n" arbitrary: n trace)
  case 0
  then have "n = k" by simp
  with 0 show ?case by (simp add: receive_loop.simps retries_def)
next
  case (Suc d)
  then have lt: "n < k" by simp
  with Suc.prems obtain err where err: "Receive n = Some err"
    by (metis not_None_eq order_refl)
  have "receive_loop Receive (Suc n) (trace @ [Receive_call, Log_error err]) =
        Some ((trace @ [Receive_call, Log_error err]) @ retries Receive (Suc n) k @ [Receive_call])"
    using Suc.hyps(1)[of "Suc n"] Suc.hyps(2) Suc.prems lt by simp
  then show ?case
    using err lt by (subst receive_loop.simps) (simp add: retries_step)
qed

lemma receive_loop_Some:
  assumes "receive_loop Receive n trace = Some y"
  shows "\<exists>k\<ge>n. Receive k = None"
proof -
  have "\<And>R m t z. receive_loop R m t = Some z \<Longrightarrow> \<exists>k\<ge>m. R k = None"
  proof -
    fix R :: "nat \<Rightarrow> error option" and m t z
    assume "receive_loop R m t = Some z"
    then show "\<exists>k\<ge>m. R k = None"
    proof (rule receive_loop.raw_induct[where P = "\<lambda>R m t z. \<exists>k\<ge>m. R k = None", rotated])
      fix rl and R' :: "nat \<Rightarrow> error option" and m' t' z'
      assume IH: "\<And>R m t z. rl R m t = Some z \<Longrightarrow> \<exists>k\<ge>m. R k = None"
        and unfolded: "(case R' m' of
                 None \<Rightarrow> Some (t' @ [Receive_call])
               | Some err \<Rightarrow> rl R' (Suc m') (t' @ [Receive_call, Log_error err])) = Some z'"
      show "\<exists>k\<ge>m'. R' k = None"
      proof (cases "R' m'")
        case None
        then show ?thesis by blast
      next
        case (Some err)
        with unfolded have "rl R' (Suc m') (t' @ [Receive_call, Log_error err]) = Some z'"
          by simp
        from IH[OF this] obtain k where "Suc m' \<le> k" "R' k = None" by blast
        then show ?thesis by (metis Suc_leD)
      qed
    qed
  qed
  with assms show ?thesis by blast
qed

lemma receive_loop_diverges:
  assumes "\<And>i. n \<le> i \<Longrightarrow> Receive i \<noteq> None"
  shows "receive_loop Receive n trace = None"
proof (cases "receive_loop Receive n trace")
  case None
  then show ?thesis .
next
  case (Some y)
  from receive_loop_Some[OF this] obtain k where "n \<le> k" "Receive k = None" by blast
  with assms show ?thesis by blast
qed

text \<open>
  Claim C5. The receive loop does not return exactly when every call of the receive
  primitive returns an error. When call \<open>k\<close> is the first to return nil, whatever \<open>k\<close>
  is, the loop has made \<open>k + 1\<close> calls and returns: after each failed call it has logged
  the error and called the primitive again, and it has done nothing else.
\<close>

theorem receive_loop_exit:
  "(receive_loop Receive 0 [] = None \<longleftrightarrow> (\<forall>n. Receive n \<noteq> None)) \<and>
   (Receive k = None \<and> (\<forall>i<k. Receive i \<noteq> None) \<longrightarrow>
      receive_loop Receive 0 [] = Some (retries Receive 0 k @ [Receive_call]))"
proof (intro conjI impI iffI)
  assume "receive_loop Receive 0 [] = None"
  show "\<forall>n. Receive n \<noteq> None"
  proof (rule ccontr)
    assume "\<not> (\<forall>n. Receive n \<noteq> None)"
    then have ex: "\<exists>n. Receive n = None" by simp
    define k where "k = (LEAST n. Receive n = None)"
    have "Receive k = None" unfolding k_def using ex by (rule LeastI_ex)
    moreover have "\<And>i. i < k \<Longrightarrow> Receive i \<noteq> None"
      unfolding k_def by (rule not_less_Least)
    ultimately have "receive_loop Receive 0 [] = Some ([] @ retries Receive 0 k @ [Receive_call])"
      by (intro receive_loop_returns) simp_all
    with \<open>receive_loop Receive 0 [] = None\<close> show False by simp
  qed
next
  assume "\<forall>n. Receive n \<noteq> None"
  then show "receive_loop Receive 0 [] = None" by (intro receive_loop_diverges) simp
next
  assume "Receive k = None \<and> (\<forall>i<k. Receive i \<noteq> None)"
  then have "receive_loop Receive 0 [] = Some ([] @ retries Receive 0 k @ [Receive_call])"
    by (intro receive_loop_returns) simp_all
  then show "receive_loop Receive 0 [] = Some (retries Receive 0 k @ [Receive_call])" by simp
qed

text \<open>Two failures and a clean stop; and a primitive that fails forever.\<close>

theorem receive_loop_exit_witness:
  "receive_loop example_receive 0 [] =
     Some [Receive_call, Log_error (Error ''connection reset''),
           Receive_call, Log_error (Error ''connection reset''),
           Receive_call] \<and>
   receive_loop failing_receive 0 [] = None"
proof -
  have stops: "example_receive 2 = None \<and> (\<forall>i<2. example_receive i \<noteq> None)"
    by (simp add: example_receive_def)
  have fails: "\<forall>n. failing_receive n \<noteq> None"
    by (simp add: failing_receive_def)
  have upt: "[0..<2] = [0, Suc 0]"
    by (simp add: upt_rec)
  have "retries example_receive 0 2 =
      [Receive_call, Log_error (Error ''connection reset''),
       Receive_call, Log_error (Error ''connection reset'')]"
    by (simp add: retries_def upt example_receive_def)
  then show ?thesis
    using stops fails receive_loop_exit[of example_receive 2] receive_loop_exit[of failing_receive]
    by simp
qed

section \<open>Facts about Publish\<close>

lemma Publish_encoded:
  assumes "Marshal p (AdjustRoutingKey p sig) = Inr d"
  shows "Publish sdk p b now sig sends =
     (AdjustRoutingKey p sig,
      sends @ [(publishQueue b,
         \<lparr>Data = d, ID = UUID (AdjustRoutingKey p sig),
          ScheduledEnqueueTime =
            (case ETA (AdjustRoutingKey p sig) of
               None \<Rightarrow> None
             | Some eta \<Rightarrow> if now < eta then Some eta else None)\<rparr>)],
      Send sdk (publishQueue b)
         \<lparr>Data = d, ID = UUID (AdjustRoutingKey p sig),
          ScheduledEnqueueTime =
            (case ETA (AdjustRoutingKey p sig) of
               None \<Rightarrow> None
             | Some eta \<Rightarrow> if now < eta then Some eta else None)\<rparr>)"
  using assms
  by (simp add: Publish_def Let_def NewMessage_def ScheduleAt_def split: option.split)

lemma Publish_not_encoded:
  assumes "Marshal p (AdjustRoutingKey p sig) = Inl err"
  shows "Publish sdk p b now sig sends =
     (AdjustRoutingKey p sig, sends, Some (Error (''JSON marshal error: '' @ error_text err)))"
  using assms by (simp add: Publish_def Let_def)

lemma receive_queue_default:
  "concurrency \<le> 1 \<Longrightarrow> receive_queue sdk b concurrency = Inr (publishQueue b)"
  by (simp add: receive_queue_def)

lemma New_publishQueue:
  assumes "New sdk c = Inr b"
  shows "NewQueue sdk (service b) (DefaultQueue c) None = Inr (publishQueue b) \<and> cnf b = c"
  using assms
  by (auto simp: New_def split: option.splits sum.splits error.splits)

text \<open>
  Claim C4. \<^verbatim>\<open>Publish\<close> hands one message to the send primitive whenever the encoding
  succeeds. The message is marked for scheduled delivery at the ETA when the ETA is set
  and strictly after the current time; when the ETA is not after the current time, or is
  not set, the message carries no scheduled-delivery mark.
\<close>

theorem Publish_scheduled_delivery:
  assumes "Marshal p (AdjustRoutingKey p sig) = Inr d"
  shows "\<exists>msg. fst (snd (Publish sdk p b now sig sends)) = sends @ [(publishQueue b, msg)] \<and>
     (\<forall>eta. ETA (AdjustRoutingKey p sig) = Some eta \<and> now < eta \<longrightarrow>
        ScheduledEnqueueTime msg = Some eta) \<and>
     (\<forall>eta. ETA (AdjustRoutingKey p sig) = Some eta \<and> \<not> now < eta \<longrightarrow>
        ScheduledEnqueueTime msg = None) \<and>
     (ETA (AdjustRoutingKey p sig) = None \<longrightarrow> ScheduledEnqueueTime msg = None)"
  by (auto simp: Publish_encoded[OF assms])

text \<open>
  At the time 100: an ETA one hour ahead, an ETA one second back, an ETA equal to the
  current time, and no ETA.
\<close>

theorem Publish_scheduled_delivery_witness:
  "map (ScheduledEnqueueTime \<circ> snd)
     (fst (snd (Publish example_sdk example_publisher example_broker 100
        (example_signature ''add'' (Some 3700) ''machinery_tasks'') []))) = [Some 3700] \<and>
   map (ScheduledEnqueueTime \<circ> snd)
     (fst (snd (Publish example_sdk example_publisher example_broker 100
        (example_signature ''add'' (Some 99) ''machinery_tasks'') []))) = [None] \<and>
   map (ScheduledEnqueueTime \<circ> snd)
     (fst (snd (Publish example_sdk example_publisher example_broker 100
        (example_signature ''add'' (Some 100) ''machinery_tasks'') []))) = [None] \<and>
   map (ScheduledEnqueueTime \<circ> snd)
     (fst (snd (Publish example_sdk example_publisher example_broker 100
        (example_signature ''add'' None ''machinery_tasks'') []))) = [None]"
proof -
  have enc: "Marshal example_publisher
      (AdjustRoutingKey example_publisher (example_signature ''add'' eta ''machinery_tasks'')) =
      Inr ''add@machinery_tasks''" for eta
    by (simp add: example_publisher_def example_signature_def)
  have eta: "ETA (AdjustRoutingKey example_publisher
      (example_signature ''add'' eta ''machinery_tasks'')) = eta" for eta
    by (simp add: example_publisher_def example_signature_def)
  show ?thesis
    using
      Publish_scheduled_delivery[OF enc[of "Some 3700"], where sdk = example_sdk
        and b = example_broker and now = 100 and sends = "[]"]
      Publish_scheduled_delivery[OF enc[of "Some 99"], where sdk = example_sdk
        and b = example_broker and now = 100 and sends = "[]"]
      Publish_scheduled_delivery[OF enc[of "Some 100"], where sdk = example_sdk
        and b = example_broker and now = 100 and sends = "[]"]
      Publish_scheduled_delivery[OF enc[of None], where sdk = example_sdk
        and b = example_broker and now = 100 and sends = "[]"]
    by (auto simp: eta)
qed

text \<open>
  Claim C7. The bytes \<^verbatim>\<open>Publish\<close> sends are the encoding of the descriptor after the
  routing adjustment. When that encoding fails, \<^verbatim>\<open>Publish\<close> returns the error
  \<open>JSON marshal error: ...\<close> and the log of the send primitive is as it was: nothing is
  sent.
\<close>

theorem Publish_encode_failure:
  "(Marshal p (AdjustRoutingKey p sig) = Inl err \<longrightarrow>
      Publish sdk p b now sig sends =
        (AdjustRoutingKey p sig, sends,
         Some (Error (''JSON marshal error: '' @ error_text err)))) \<and>
   (Marshal p (AdjustRoutingKey p sig) = Inr d \<longrightarrow>
      (\<exists>msg. fst (snd (Publish sdk p b now sig sends)) = sends @ [(publishQueue b, msg)] \<and>
             Data msg = d))"
  by (simp add: Publish_encoded Publish_not_encoded)

text \<open>
  A descriptor with no name, which the example encoder refuses, and one with an empty
  routing key, whose encoding shows the adjusted key.
\<close>

theorem Publish_encode_failure_witness:
  "Publish example_sdk example_publisher example_broker 100
     (example_signature [] None []) [] =
     (example_signature [] None ''machinery_tasks'', [],
      Some (Error ''JSON marshal error: unsupported value'')) \<and>
   map (Data \<circ> snd)
     (fst (snd (Publish example_sdk example_publisher example_broker 100
        (example_signature ''add'' None []) []))) = [''add@machinery_tasks''] \<and>
   Marshal example_publisher (example_signature ''add'' None []) = Inr ''add@''"
proof -
  have fail: "Marshal example_publisher
      (AdjustRoutingKey example_publisher (example_signature [] None [])) =
      Inl (Error ''unsupported value'')"
    by (simp add: example_publisher_def example_signature_def)
  have adj: "AdjustRoutingKey example_publisher (example_signature [] None []) =
      example_signature [] None ''machinery_tasks''"
    by (simp add: example_publisher_def example_signature_def)
  have enc: "Marshal example_publisher
      (AdjustRoutingKey example_publisher (example_signature ''add'' None [])) =
      Inr ''add@machinery_tasks''"
    by (simp add: example_publisher_def example_signature_def)
  have raw: "Marshal example_publisher (example_signature ''add'' None []) = Inr ''add@''"
    by (simp add: example_publisher_def example_signature_def)
  have failed: "Publish example_sdk example_publisher example_broker 100
      (example_signature [] None []) [] =
      (AdjustRoutingKey example_publisher (example_signature [] None []), [],
       Some (Error (''JSON marshal error: '' @ error_text (Error ''unsupported value''))))"
    using fail
      Publish_encode_failure[where p = example_publisher
        and sig = "example_signature [] None []" and err = "Error ''unsupported value''"
        and sdk = example_sdk and b = example_broker and now = 100 and sends = "[]"]
    by blast
  have sent: "\<exists>msg. fst (snd (Publish example_sdk example_publisher example_broker 100
      (example_signature ''add'' None []) [])) = [] @ [(publishQueue example_broker, msg)] \<and>
      Data msg = ''add@machinery_tasks''"
    using enc
      Publish_encode_failure[where p = example_publisher
        and sig = "example_signature ''add'' None []" and d = "''add@machinery_tasks''"
        and sdk = example_sdk and b = example_broker and now = 100 and sends = "[]"]
    by blast
  show ?thesis
    using failed sent raw by (auto simp: adj)
qed

text \<open>
  Claim C9. The message \<^verbatim>\<open>Publish\<close> passes to the send primitive has the descriptor's
  UUID as its ID.
\<close>

theorem Publish_message_id:
  assumes "Marshal p (AdjustRoutingKey p sig) = Inr d"
  shows "\<exists>msg. fst (snd (Publish sdk p b now sig sends)) = sends @ [(publishQueue b, msg)] \<and>
     snd (snd (Publish sdk p b now sig sends)) = Send sdk (publishQueue b) msg \<and>
     ID msg = UUID (AdjustRoutingKey p sig)"
  by (simp add: Publish_encoded[OF assms])

theorem Publish_message_id_witness:
  "map (ID \<circ> snd)
     (fst (snd (Publish example_sdk example_publisher example_broker 100
        (example_signature ''add'' None []) []))) = [''7a1c''] \<and>
   UUID (example_signature ''add'' None []) = ''7a1c''"
proof -
  have enc: "Marshal example_publisher
      (AdjustRoutingKey example_publisher (example_signature ''add'' None [])) =
      Inr ''add@machinery_tasks''"
    by (simp add: example_publisher_def example_signature_def)
  have uuid: "UUID (AdjustRoutingKey example_publisher (example_signature ''add'' None [])) =
      ''7a1c''" "UUID (example_signature ''add'' None []) = ''7a1c''"
    by (simp_all add: example_publisher_def example_signature_def)
  show ?thesis
    using Publish_message_id[OF enc, where sdk = example_sdk and b = example_broker
        and now = 100 and sends = "[]"]
    by (auto simp: uuid)
qed

text \<open>
  Claim C10. For a broker built by \<^verbatim>\<open>New\<close>, a \<^verbatim>\<open>Publish\<close> that returns no error has
  made exactly one send, on \<^verbatim>\<open>publishQueue\<close>: the handle \<^verbatim>\<open>New\<close> created for the
  configured default queue. Neither the descriptor nor the routing adjustment has a say
  in the handle.
\<close>

theorem Publish_queue_handle:
  assumes "New sdk c = Inr b"
    and "snd (snd (Publish sdk p b now sig sends)) = None"
  shows "NewQueue sdk (service b) (DefaultQueue c) None = Inr (publishQueue b) \<and>
     map fst (fst (snd (Publish sdk p b now sig sends))) = map fst sends @ [publishQueue b]"
proof (cases "Marshal p (AdjustRoutingKey p sig)")
  case (Inl err)
  with assms(2) show ?thesis by (simp add: Publish_not_encoded)
next
  case (Inr d)
  then show ?thesis using New_publishQueue[OF assms(1)] by (simp add: Publish_encoded)
qed

text \<open>A descriptor routed to another queue, and one with no routing key.\<close>

theorem Publish_queue_handle_witness:
  "New example_sdk example_config = Inr example_broker \<and>
   map fst (fst (snd (Publish example_sdk example_publisher example_broker 100
      (example_signature ''add'' None ''other_queue'') []))) = [(''machinery_tasks'', None)] \<and>
   map fst (fst (snd (Publish example_sdk example_publisher example_broker 100
      (example_signature ''add'' None []) []))) = [(''machinery_tasks'', None)]"
proof -
  have new: "New example_sdk example_config = Inr example_broker"
    by (simp add: New_def example_sdk_def example_config_def example_broker_def)
  have ok: "snd (snd (Publish example_sdk example_publisher example_broker 100
      (example_signature ''add'' None key) [])) = None" for key
    by (simp add: Publish_def Let_def example_sdk_def example_publisher_def
        example_signature_def)
  have q: "publishQueue example_broker = (''machinery_tasks'', None)"
    by (simp add: example_broker_def)
  show ?thesis
    using Publish_queue_handle[OF new ok[of "''other_queue''"]]
      Publish_queue_handle[OF new ok[of "[]"]] new
    by (simp add: q)
qed

end
